theory Spec2Isabelle
  imports Main "HOL-Library.Sublist" "HOL-Library.AList"
begin

section \<open>The request gate of the admin panel (\<^verbatim>\<open>src/middleware.js\<close>)\<close>

text \<open>
  The module holds one piece of mutable state, the \<^verbatim>\<open>requestCounts\<close> map of the rate
  limiter, and two functions: \<^verbatim>\<open>checkRateLimit\<close> and \<^verbatim>\<open>middleware\<close>. The state is passed
  in and returned explicitly. The clock (\<^verbatim>\<open>Date.now()\<close>) and the answer of the external
  session lookup (\<^verbatim>\<open>auth.api.getSession\<close>) are inputs of the model. Console output is
  not modelled: it never influences a response or the map.
\<close>

subsection \<open>JavaScript values and string methods\<close>

text \<open>
  A JavaScript string is a \<^typ>\<open>string\<close>, one \<^typ>\<open>char\<close> per code unit. A value that may
  be \<^verbatim>\<open>null\<close> or \<^verbatim>\<open>undefined\<close> is a \<^typ>\<open>string option\<close>. Such a value is falsy when it
  is absent or the empty string (so \<^verbatim>\<open>!contentType\<close> below is: absent, or \<open>[]\<close>).
\<close>

text \<open>\<^verbatim>\<open>a || b\<close> where \<^verbatim>\<open>b\<close> is a string: \<^verbatim>\<open>a\<close> when it is truthy, else \<^verbatim>\<open>b\<close>.\<close>

fun js_or :: "string option \<Rightarrow> string \<Rightarrow> string" where
  "js_or (Some (c # cs)) b = c # cs"
| "js_or a b = b"

text \<open>\<^verbatim>\<open>s.includes(searchString)\<close>: \<^verbatim>\<open>searchString\<close> occurs somewhere in \<^verbatim>\<open>s\<close>.\<close>

definition str_includes :: "string \<Rightarrow> string \<Rightarrow> bool" where
  "str_includes s searchString = sublist searchString s"

text \<open>\<^verbatim>\<open>s.startsWith(searchString)\<close>: \<^verbatim>\<open>searchString\<close> occurs at position 0 of \<^verbatim>\<open>s\<close>.\<close>

definition str_startsWith :: "string \<Rightarrow> string \<Rightarrow> bool" where
  "str_startsWith s searchString = prefix searchString s"

subsection \<open>The rate limiter\<close>

text \<open>
  \<^verbatim>\<open>requestCounts\<close> is a JavaScript \<^verbatim>\<open>Map\<close> from identifiers to arrays of timestamps. It is
  an association list in insertion order: \<^verbatim>\<open>get\<close> is \<^const>\<open>map_of\<close>, \<^verbatim>\<open>set\<close> is
  \<^const>\<open>AList.update\<close> (an existing key keeps its place, a new one goes to the end),
  \<^verbatim>\<open>size\<close> is \<^const>\<open>length\<close> and \<^verbatim>\<open>clear()\<close> leaves \<open>[]\<close>. Timestamps are the
  milliseconds of \<^verbatim>\<open>Date.now()\<close>.
\<close>

type_synonym rate_map = "(string \<times> int list) list"

definition RATE_LIMIT_WINDOW :: int where
  "RATE_LIMIT_WINDOW = 60000"

definition MAX_REQUESTS :: nat where
  "MAX_REQUESTS = 100"

definition checkRateLimit :: "string \<Rightarrow> int \<Rightarrow> rate_map \<Rightarrow> bool \<times> rate_map" where
  "checkRateLimit identifier now requestCounts0 =
    (let userRequests = (case map_of requestCounts0 identifier of Some ts \<Rightarrow> ts | None \<Rightarrow> []);
         recentRequests = filter (\<lambda>time. now - time < RATE_LIMIT_WINDOW) userRequests
     in if length recentRequests \<ge> MAX_REQUESTS then (False, requestCounts0)
        else
          (let requestCounts1 = AList.update identifier (recentRequests @ [now]) requestCounts0
           in (True, if length requestCounts1 > 1000 then [] else requestCounts1)))"

text \<open>
  A sequence of calls, each with its identifier and the clock value it reads; the answers
  are collected in order and the map is threaded through.
\<close>

fun checkRateLimit_seq :: "(string \<times> int) list \<Rightarrow> rate_map \<Rightarrow> bool list \<times> rate_map" where
  "checkRateLimit_seq [] requestCounts0 = ([], requestCounts0)"
| "checkRateLimit_seq ((identifier, now) # rest) requestCounts0 =
     (let (ok, requestCounts1) = checkRateLimit identifier now requestCounts0;
          (oks, requestCounts2) = checkRateLimit_seq rest requestCounts1
      in (ok # oks, requestCounts2))"

subsection \<open>Requests, sessions and responses\<close>

definition PUBLIC_PATHS :: "string list" where
  "PUBLIC_PATHS =
    [''/'', ''/_next/'', ''/favicon.ico'', ''/robots.txt'', ''/sitemap.xml'', ''/images/'',
     ''/api/auth/'']"

definition SUSPICIOUS_PATHS :: "string list" where
  "SUSPICIOUS_PATHS =
    [''/.env'', ''/wp-admin'', ''/phpMyAdmin'', ''/.git'', ''/config'', ''/backup'', ''/.aws'',
     ''/admin.php'', ''/login.php'', ''/shell.php'']"

text \<open>
  The two path tests of the middleware: \<^verbatim>\<open>SUSPICIOUS_PATHS.some(...)\<close> on \<^verbatim>\<open>includes\<close> and
  \<^verbatim>\<open>PUBLIC_PATHS.some(...)\<close> on \<^verbatim>\<open>startsWith\<close> (the source names the second \<^verbatim>\<open>isPublic\<close>).
\<close>

definition isSuspicious :: "string \<Rightarrow> bool" where
  "isSuspicious pathname = list_ex (\<lambda>path. str_includes pathname path) SUSPICIOUS_PATHS"

definition isPublic :: "string \<Rightarrow> bool" where
  "isPublic pathname = list_ex (\<lambda>publicPath. str_startsWith pathname publicPath) PUBLIC_PATHS"

text \<open>
  The fields of \<^verbatim>\<open>req\<close> that the middleware reads. \<^verbatim>\<open>req.headers.get(name)\<close> is
  \<^const>\<open>map_of\<close> on the header list (\<^verbatim>\<open>null\<close> is \<^const>\<open>None\<close>).
\<close>

record request =
  nextUrl_pathname :: string
  nextUrl_origin :: string
  req_url :: string
  req_method :: string
  req_headers :: "(string \<times> string) list"
  req_ip :: "string option"

record user =
  user_role :: "string option"
  user_email :: "string option"
  user_id :: "string option"

record session =
  session_user :: "user option"

text \<open>
  JavaScript can throw any value. The \<^verbatim>\<open>catch\<close> block reads \<^verbatim>\<open>error.message\<close> of what it
  caught: on \<^verbatim>\<open>null\<close> and \<^verbatim>\<open>undefined\<close> this read raises a \<^verbatim>\<open>TypeError\<close>, on every other
  value it gives the property or \<^verbatim>\<open>undefined\<close>. So a thrown value is nullish, or a value
  with its (possibly absent) message.
\<close>

datatype thrown = ThrownNullish | ThrownValue "string option"

text \<open>
  What the \<^verbatim>\<open>try\<close> block gets from \<^verbatim>\<open>getAuth()\<close>, \<^verbatim>\<open>headers()\<close> and \<^verbatim>\<open>getSession\<close>: a
  value is thrown, or a session or \<^verbatim>\<open>null\<close> is returned.
\<close>

datatype getSession_outcome = Throws thrown | Returns "session option"

text \<open>An exception that leaves \<^verbatim>\<open>middleware\<close> uncaught.\<close>

datatype fault = TypeError

datatype json = JBool bool | JString string

text \<open>A response body: \<^verbatim>\<open>null\<close>, or \<^verbatim>\<open>JSON.stringify\<close> of an object given by its properties.\<close>

datatype body = Null | JSON_stringify "(string \<times> json) list"

text \<open>
  \<^verbatim>\<open>new URL(input, base)\<close> keeps its two arguments; \<^verbatim>\<open>searchParams\<close> is the ordered list
  of query parameters.
\<close>

record URL =
  url_input :: string
  url_base :: string
  searchParams :: "(string \<times> string) list"

definition URL_new :: "string \<Rightarrow> string \<Rightarrow> URL" where
  "URL_new input base = \<lparr>url_input = input, url_base = base, searchParams = []\<rparr>"

definition searchParams_set :: "string \<Rightarrow> string \<Rightarrow> URL \<Rightarrow> URL" where
  "searchParams_set name v u = u\<lparr>searchParams := AList.update name v (searchParams u)\<rparr>"

text \<open>
  A response is \<^verbatim>\<open>NextResponse.next()\<close>, \<^verbatim>\<open>NextResponse.redirect(url)\<close> or
  \<^verbatim>\<open>new NextResponse(body, {status, headers})\<close>, together with the headers that the
  middleware gives it.
\<close>

datatype response_kind = Next | Redirect URL | New body nat

record response =
  kind :: response_kind
  headers :: "(string \<times> string) list"

definition NextResponse_next :: response where
  "NextResponse_next = \<lparr>kind = Next, headers = []\<rparr>"

definition NextResponse_redirect :: "URL \<Rightarrow> response" where
  "NextResponse_redirect u = \<lparr>kind = Redirect u, headers = []\<rparr>"

definition NextResponse_new :: "body \<Rightarrow> nat \<Rightarrow> (string \<times> string) list \<Rightarrow> response" where
  "NextResponse_new b status hs = \<lparr>kind = New b status, headers = hs\<rparr>"

definition headers_set :: "string \<Rightarrow> string \<Rightarrow> response \<Rightarrow> response" where
  "headers_set name v r = r\<lparr>headers := AList.update name v (headers r)\<rparr>"

text \<open>The calls that leave the middleware's own body, in the order they are made.\<close>

datatype call = GetSession | CheckRateLimit string

record outcome =
  response :: response
  requestCounts :: rate_map
  calls :: "call list"


subsection \<open>The middleware\<close>

text \<open>
  The seven numbered sections of \<^verbatim>\<open>middleware\<close>, in the source's order. An early
  \<^verbatim>\<open>return\<close> is the branch of an \<open>if\<close>; the \<^verbatim>\<open>try\<close>/\<^verbatim>\<open>catch\<close> around the session lookup is
  the case distinction on its outcome. The result is \<open>Inr\<close> of the response, the map and
  the calls made, or \<open>Inl\<close> of the exception that leaves the function: the only place
  where one can arise outside the \<^verbatim>\<open>try\<close> block is the read of \<^verbatim>\<open>error.message\<close> in the
  \<^verbatim>\<open>catch\<close> block, which comes before anything else there; the map is untouched then. \<open>now\<close> is the clock value that \<^verbatim>\<open>checkRateLimit\<close>
  reads if it is called. \<^verbatim>\<open>userRole\<close> is the string \<^verbatim>\<open>"admin"\<close> where it becomes a header
  value. The header values \<open>''100''\<close> and \<open>''60''\<close> of the 429 response are
  \<^verbatim>\<open>MAX_REQUESTS.toString()\<close> and \<^verbatim>\<open>(RATE_LIMIT_WINDOW / 1000).toString()\<close>.
\<close>

definition middleware :: "request \<Rightarrow> getSession_outcome \<Rightarrow> int \<Rightarrow> rate_map \<Rightarrow> fault + outcome" where
  "middleware req getSession now requestCounts0 =
    (let pathname = nextUrl_pathname req;
         origin = nextUrl_origin req;
         ip = js_or (map_of (req_headers req) ''x-forwarded-for'') (js_or (req_ip req) ''unknown'')
     in
     if isSuspicious pathname then
       Inr \<lparr>response = NextResponse_new Null 404 [], requestCounts = requestCounts0, calls = []\<rparr>
     else if isPublic pathname then
       Inr \<lparr>response = NextResponse_next, requestCounts = requestCounts0, calls = []\<rparr>
     else
       (case getSession of
          Throws error \<Rightarrow>
            (case error of
               ThrownNullish \<Rightarrow> Inl TypeError
             | ThrownValue message \<Rightarrow>
                 Inr \<lparr>response =
                    headers_set ''X-Redirect-Reason'' ''auth-error''
                      (NextResponse_redirect
                        (searchParams_set ''error'' ''auth_error'' (URL_new ''/'' (req_url req)))),
                  requestCounts = requestCounts0, calls = [GetSession]\<rparr>)
        | Returns session \<Rightarrow>
            (case (case session of None \<Rightarrow> None | Some s \<Rightarrow> session_user s) of
               None \<Rightarrow>
                 Inr \<lparr>response =
                    headers_set ''X-Redirect-Reason'' ''no-session''
                      (NextResponse_redirect
                        (searchParams_set ''callbackUrl'' pathname
                          (searchParams_set ''error'' ''authentication_required''
                            (URL_new ''/'' (req_url req))))),
                  requestCounts = requestCounts0, calls = [GetSession]\<rparr>
             | Some u \<Rightarrow>
                 (let userRole = user_role u;
                      userEmail = user_email u;
                      userId = user_id u
                  in
                  if userRole \<noteq> Some ''admin'' then
                    Inr \<lparr>response =
                       headers_set ''X-Redirect-Reason'' ''not-admin''
                         (NextResponse_redirect
                           (searchParams_set ''message''
                             (''Acc'' @ [CHR 0xE8] @ ''s r'' @ [CHR 0xE9] @ ''serv'' @ [CHR 0xE9]
                                @ '' aux administrateurs'')
                             (searchParams_set ''error'' ''unauthorized''
                               (URL_new ''/'' (req_url req))))),
                     requestCounts = requestCounts0, calls = [GetSession]\<rparr>
                  else
                    (let identifier = js_or userEmail (js_or userId ip);
                         (allowed, requestCounts1, calls1) =
                           (if str_startsWith pathname ''/api/'' then
                              (let (ok, rc) = checkRateLimit identifier now requestCounts0
                               in (ok, rc, [GetSession, CheckRateLimit identifier]))
                            else (True, requestCounts0, [GetSession]))
                     in
                     if \<not> allowed then
                       Inr \<lparr>response =
                          NextResponse_new
                            (JSON_stringify
                              [(''success'', JBool False),
                               (''message'', JString ''Too many requests. Please try again later.'')])
                            429
                            [(''Content-Type'', ''application/json''),
                             (''X-RateLimit-Limit'', ''100''),
                             (''X-RateLimit-Window'', ''60''),
                             (''Retry-After'', ''60'')],
                        requestCounts = requestCounts1, calls = calls1\<rparr>
                     else
                       (let contentType = map_of (req_headers req) ''content-type''
                        in
                        if List.member [''POST'', ''PUT'', ''PATCH''] (req_method req)
                           \<and> (case contentType of
                                 None \<Rightarrow> True
                               | Some ct \<Rightarrow>
                                   ct = []
                                   \<or> (\<not> str_includes ct ''application/json''
                                       \<and> \<not> str_includes ct ''multipart/form-data''))
                           \<and> \<not> str_includes pathname ''/api/auth/''
                        then
                          Inr \<lparr>response =
                             NextResponse_new
                               (JSON_stringify
                                 [(''success'', JBool False),
                                  (''message'', JString ''Invalid content type'')])
                               400
                               [(''Content-Type'', ''application/json'')],
                           requestCounts = requestCounts1, calls = calls1\<rparr>
                        else
                          (let response0 = NextResponse_next;
                               response1 =
                                 (if str_startsWith pathname ''/api/'' then
                                    headers_set ''Referrer-Policy'' ''strict-origin-when-cross-origin''
                                      (headers_set ''X-XSS-Protection'' ''0''
                                        (headers_set ''X-Frame-Options'' ''DENY''
                                          (headers_set ''X-Content-Type-Options'' ''nosniff''
                                            (headers_set ''Access-Control-Allow-Headers''
                                               ''Content-Type, Authorization''
                                              (headers_set ''Access-Control-Allow-Methods''
                                                 ''GET, POST, PUT, DELETE, PATCH, OPTIONS''
                                                (headers_set ''Access-Control-Allow-Credentials'' ''true''
                                                  (headers_set ''Access-Control-Allow-Origin'' origin
                                                    response0)))))))
                                  else response0);
                               response2 =
                                 (if str_startsWith pathname ''/admin'' \<or> str_startsWith pathname ''/api/''
                                  then
                                    headers_set ''Cache-Control''
                                       ''no-store, no-cache, must-revalidate, private''
                                      (headers_set ''X-User-Role'' (case userRole of Some r \<Rightarrow> r | None \<Rightarrow> [])
                                        (headers_set ''X-User-Id'' (js_or userId ''unknown'')
                                          (headers_set ''X-Admin-User'' (js_or userEmail ''unknown'')
                                            response1)))
                                  else response1)
                           in
                           Inr \<lparr>response = headers_set ''X-User-Authenticated'' ''true'' response2,
                            requestCounts = requestCounts1, calls = calls1\<rparr>)))))))"

subsection \<open>Example inputs\<close>

text \<open>A request with a given path, method and headers, and a session of an administrator.\<close>

definition example_request :: "string \<Rightarrow> string \<Rightarrow> (string \<times> string) list \<Rightarrow> request" where
  "example_request pathname m hs =
    \<lparr>nextUrl_pathname = pathname, nextUrl_origin = ''https://admin.example'',
     req_url = ''https://admin.example'' @ pathname, req_method = m, req_headers = hs,
     req_ip = None\<rparr>"

definition admin_session :: session where
  "admin_session =
    \<lparr>session_user =
       Some \<lparr>user_role = Some ''admin'', user_email = Some ''root@admin.example'',
             user_id = Some ''u1''\<rparr>\<rparr>"

text \<open>
  A hand-made request object whose \<^verbatim>\<open>nextUrl.pathname\<close> has no leading slash: the only kind
  of path that passes both path tests. No HTTP request gives such an object; it serves to
  run the sections of the middleware that come after the public exit.
\<close>

definition bare_path_request :: "string \<Rightarrow> (string \<times> string) list \<Rightarrow> request" where
  "bare_path_request m hs =
    \<lparr>nextUrl_pathname = ''admin/users'', nextUrl_origin = ''https://admin.example'',
     req_url = ''https://admin.example/admin/users'', req_method = m, req_headers = hs,
     req_ip = None\<rparr>"

text \<open>
  A thousand calls by the identifiers \<^verbatim>\<open>a\<close>, \<^verbatim>\<open>aa\<close>, \<^verbatim>\<open>aaa\<close>, ..., a map that tracks these
  thousand identifiers, and a map in which the administrator has used up the 100 calls of
  the window.
\<close>

definition thousand_calls :: "(string \<times> int) list" where
  "thousand_calls = map (\<lambda>n. (replicate (Suc n) CHR ''a'', int n)) [0..<1000]"

definition thousand_tracked :: rate_map where
  "thousand_tracked = map (\<lambda>n. (replicate (Suc n) CHR ''a'', [int n])) [0..<1000]"

definition blocked_admin :: rate_map where
  "blocked_admin = [(''root@admin.example'', replicate 100 0)]"

section \<open>Basic facts about the path tests\<close>

lemma str_includes_iff: "str_includes s p \<longleftrightarrow> (\<exists>pre suf. s = pre @ p @ suf)"
  by (simp add: str_includes_def sublist_def)

lemma isSuspicious_iff:
  "isSuspicious pathname \<longleftrightarrow> (\<exists>d\<in>set SUSPICIOUS_PATHS. \<exists>pre suf. pathname = pre @ d @ suf)"
  by (simp add: isSuspicious_def list_ex_iff str_includes_iff)

lemma isPublic_root: "str_startsWith pathname ''/'' \<Longrightarrow> isPublic pathname"
  by (simp add: isPublic_def PUBLIC_PATHS_def)

lemmas path_eval =
  isPublic_def isSuspicious_def PUBLIC_PATHS_def SUSPICIOUS_PATHS_def str_includes_def
  str_startsWith_def sublist_code

section \<open>The exits of the middleware before the rate limiter\<close>

lemma middleware_suspicious:
  "isSuspicious (nextUrl_pathname req) \<Longrightarrow>
   middleware req getSession now rc =
     Inr \<lparr>response = NextResponse_new Null 404 [], requestCounts = rc, calls = []\<rparr>"
  by (simp add: middleware_def)

lemma middleware_public:
  "\<not> isSuspicious (nextUrl_pathname req) \<Longrightarrow> isPublic (nextUrl_pathname req) \<Longrightarrow>
   middleware req getSession now rc =
     Inr \<lparr>response = NextResponse_next, requestCounts = rc, calls = []\<rparr>"
  by (simp add: middleware_def)

text \<open>
  What sections 3 and 4 do with a request that passes both path tests: the three redirects,
  and the exception that leaves the \<^verbatim>\<open>catch\<close> block when the thrown value is nullish.
\<close>

lemma middleware_throws_value:
  "\<not> isSuspicious (nextUrl_pathname req) \<Longrightarrow> \<not> isPublic (nextUrl_pathname req) \<Longrightarrow>
   middleware req (Throws (ThrownValue message)) now rc =
     Inr \<lparr>response =
        headers_set ''X-Redirect-Reason'' ''auth-error''
          (NextResponse_redirect
            (searchParams_set ''error'' ''auth_error'' (URL_new ''/'' (req_url req)))),
      requestCounts = rc, calls = [GetSession]\<rparr>"
  by (simp add: middleware_def)

lemma middleware_throws_nullish:
  "\<not> isSuspicious (nextUrl_pathname req) \<Longrightarrow> \<not> isPublic (nextUrl_pathname req) \<Longrightarrow>
   middleware req (Throws ThrownNullish) now rc = Inl TypeError"
  by (simp add: middleware_def)

lemma middleware_no_user:
  "\<not> isSuspicious (nextUrl_pathname req) \<Longrightarrow> \<not> isPublic (nextUrl_pathname req) \<Longrightarrow>
   (case session of None \<Rightarrow> None | Some s \<Rightarrow> session_user s) = None \<Longrightarrow>
   middleware req (Returns session) now rc =
     Inr \<lparr>response =
        headers_set ''X-Redirect-Reason'' ''no-session''
          (NextResponse_redirect
            (searchParams_set ''callbackUrl'' (nextUrl_pathname req)
              (searchParams_set ''error'' ''authentication_required''
                (URL_new ''/'' (req_url req))))),
      requestCounts = rc, calls = [GetSession]\<rparr>"
  by (simp add: middleware_def)

lemma middleware_user:
  "\<not> isSuspicious (nextUrl_pathname req) \<Longrightarrow> \<not> isPublic (nextUrl_pathname req) \<Longrightarrow>
   session_user s = Some u \<Longrightarrow> user_role u \<noteq> Some ''admin'' \<Longrightarrow>
   middleware req (Returns (Some s)) now rc =
     Inr \<lparr>response =
        headers_set ''X-Redirect-Reason'' ''not-admin''
          (NextResponse_redirect
            (searchParams_set ''message''
              (''Acc'' @ [CHR 0xE8] @ ''s r'' @ [CHR 0xE9] @ ''serv'' @ [CHR 0xE9]
                 @ '' aux administrateurs'')
              (searchParams_set ''error'' ''unauthorized'' (URL_new ''/'' (req_url req))))),
      requestCounts = rc, calls = [GetSession]\<rparr>"
  by (simp add: middleware_def)

text \<open>
  No request whose path starts with \<^verbatim>\<open>/\<close> gets that far: it ends at the 404 or at the public
  exit, whatever the session lookup would answer.
\<close>

lemma leading_slash_never_reaches_session:
  "str_startsWith (nextUrl_pathname req) ''/'' \<Longrightarrow>
   middleware req getSession now rc =
     Inr \<lparr>response = NextResponse_new Null 404 [], requestCounts = rc, calls = []\<rparr>
   \<or> middleware req getSession now rc =
     Inr \<lparr>response = NextResponse_next, requestCounts = rc, calls = []\<rparr>"
  using middleware_suspicious[of req getSession now rc]
    middleware_public[of req getSession now rc] isPublic_root[of "nextUrl_pathname req"]
  by blast

lemma bare_path_protected:
  "\<not> isSuspicious (nextUrl_pathname (bare_path_request m hs))"
  "\<not> isPublic (nextUrl_pathname (bare_path_request m hs))"
  by (simp_all add: bare_path_request_def path_eval)

lemmas response_eval =
  headers_set_def NextResponse_redirect_def NextResponse_new_def NextResponse_next_def
  searchParams_set_def URL_new_def

section \<open>Basic facts about the rate limiter\<close>

lemma update_fresh: "k \<notin> fst ` set al \<Longrightarrow> AList.update k v al = al @ [(k, v)]"
  by (induction al) auto

lemma length_update_present: "k \<in> fst ` set al \<Longrightarrow> length (AList.update k v al) = length al"
  by (induction al) auto

lemma map_of_present: "map_of al k = Some v \<Longrightarrow> k \<in> fst ` set al"
  by (metis domI dom_map_of_conv_image_fst)

lemma checkRateLimit_fresh:
  assumes "map_of rc i = None"
  shows "checkRateLimit i now rc = (True, if 1000 \<le> length rc then [] else rc @ [(i, [now])])"
proof -
  from assms have "i \<notin> fst ` set rc" by (simp add: map_of_eq_None_iff)
  then have "AList.update i [now] rc = rc @ [(i, [now])]" by (rule update_fresh)
  with assms show ?thesis
    by (simp add: checkRateLimit_def MAX_REQUESTS_def)
qed

lemma checkRateLimit_accept:
  assumes "map_of rc i = Some es"
    and "length (filter (\<lambda>time. now - time < 60000) es) < 100"
    and "length rc \<le> 1000"
  shows "checkRateLimit i now rc =
    (True, AList.update i (filter (\<lambda>time. now - time < 60000) es @ [now]) rc)"
proof -
  from assms(1) have "i \<in> fst ` set rc" by (rule map_of_present)
  then have "length (AList.update i (filter (\<lambda>time. now - time < 60000) es @ [now]) rc) = length rc"
    by (rule length_update_present)
  with assms show ?thesis
    by (simp add: checkRateLimit_def MAX_REQUESTS_def RATE_LIMIT_WINDOW_def Let_def)
qed

lemma checkRateLimit_deny:
  assumes "map_of rc i = Some es"
    and "100 \<le> length (filter (\<lambda>time. now - time < 60000) es)"
  shows "checkRateLimit i now rc = (False, rc)"
  using assms by (simp add: checkRateLimit_def MAX_REQUESTS_def RATE_LIMIT_WINDOW_def)

lemma filter_in_window:
  fixes now w :: int
  assumes "\<forall>e\<in>set es. w \<le> e" and "now < w + 60000"
  shows "filter (\<lambda>time. now - time < 60000) es = es"
  using assms by (induction es) auto

lemma checkRateLimit_seq_Cons:
  "checkRateLimit_seq ((i, t) # cs) rc =
     (fst (checkRateLimit i t rc) # fst (checkRateLimit_seq cs (snd (checkRateLimit i t rc))),
      snd (checkRateLimit_seq cs (snd (checkRateLimit i t rc))))"
  by (simp add: case_prod_beta)

lemma checkRateLimit_seq_append:
  "checkRateLimit_seq (xs @ ys) rc =
     (fst (checkRateLimit_seq xs rc) @ fst (checkRateLimit_seq ys (snd (checkRateLimit_seq xs rc))),
      snd (checkRateLimit_seq ys (snd (checkRateLimit_seq xs rc))))"
  by (induction xs arbitrary: rc) (auto simp: case_prod_beta)

lemma seq_within_window:
  assumes "map_of rc i = Some es"
    and "\<forall>e\<in>set es. w \<le> e \<and> e < w + 60000"
    and "\<forall>t\<in>set ts. w \<le> t \<and> t < w + 60000"
    and "length es + length ts \<le> 100"
    and "length rc \<le> 1000"
  shows "checkRateLimit_seq (map (Pair i) ts) rc =
    (replicate (length ts) True, AList.update i (es @ ts) rc)"
  using assms
proof (induction ts arbitrary: es rc)
  case Nil
  then show ?case by (simp add: update_triv)
next
  case (Cons t ts)
  have keep: "filter (\<lambda>time. t - time < 60000) es = es"
    using Cons.prems(2,3) by (intro filter_in_window[where w = w]) auto
  have step: "checkRateLimit i t rc = (True, AList.update i (es @ [t]) rc)"
    using checkRateLimit_accept[OF Cons.prems(1), of t] Cons.prems(4,5) keep by simp
  let ?rc1 = "AList.update i (es @ [t]) rc"
  have "i \<in> fst ` set rc" using Cons.prems(1) by (rule map_of_present)
  then have len: "length ?rc1 \<le> 1000"
    using Cons.prems(5) by (simp add: length_update_present)
  have look: "map_of ?rc1 i = Some (es @ [t])" by (simp add: update_conv')
  have "checkRateLimit_seq (map (Pair i) ts) ?rc1 =
      (replicate (length ts) True, AList.update i ((es @ [t]) @ ts) ?rc1)"
    using Cons.prems(2,3,4) by (intro Cons.IH[OF look _ _ _ len]) auto
  with step show ?case by (simp add: case_prod_beta)
qed

lemma keys_checkRateLimit:
  "fst ` set (snd (checkRateLimit i now rc)) \<subseteq> insert i (fst ` set rc)"
  by (auto simp: checkRateLimit_def Let_def dom_update)

lemma keys_checkRateLimit_seq:
  "fst ` set (snd (checkRateLimit_seq cs rc)) \<subseteq> fst ` set cs \<union> fst ` set rc"
proof (induction cs arbitrary: rc)
  case Nil
  then show ?case by simp
next
  case (Cons c cs)
  obtain i t where c: "c = (i, t)" by (cases c)
  have "fst ` set (snd (checkRateLimit_seq cs (snd (checkRateLimit i t rc))))
      \<subseteq> fst ` set cs \<union> fst ` set (snd (checkRateLimit i t rc))"
    by (rule Cons.IH)
  with keys_checkRateLimit[of i t rc]
  have "fst ` set (snd (checkRateLimit_seq cs (snd (checkRateLimit i t rc))))
      \<subseteq> insert i (fst ` set cs \<union> fst ` set rc)"
    by blast
  moreover have "snd (checkRateLimit_seq (c # cs) rc) =
      snd (checkRateLimit_seq cs (snd (checkRateLimit i t rc)))"
    unfolding c checkRateLimit_seq_Cons by simp
  ultimately show ?case by (simp add: c)
qed

lemma new_identifiers_clear:
  assumes "distinct (map fst cs)"
    and "fst ` set cs \<inter> fst ` set rc = {}"
    and "length rc \<le> 1000"
    and "1000 < length rc + length cs"
    and "x \<notin> fst ` set cs"
  shows "x \<notin> fst ` set (snd (checkRateLimit_seq cs rc))"
  using assms
proof (induction cs arbitrary: rc)
  case Nil
  then show ?case by simp
next
  case (Cons c cs)
  obtain i t where c: "c = (i, t)" by (cases c)
  from Cons.prems(2) have fresh: "map_of rc i = None"
    by (auto simp: c map_of_eq_None_iff)
  show ?case
  proof (cases "1000 \<le> length rc")
    case True
    then have "checkRateLimit i t rc = (True, [])"
      using checkRateLimit_fresh[OF fresh, of t] by simp
    moreover have "x \<notin> fst ` set (snd (checkRateLimit_seq cs []))"
      using keys_checkRateLimit_seq[of cs "[]"] Cons.prems(5) by auto
    ultimately show ?thesis unfolding c checkRateLimit_seq_Cons by simp
  next
    case False
    let ?rc1 = "rc @ [(i, [t])]"
    from False have step: "checkRateLimit i t rc = (True, ?rc1)"
      using checkRateLimit_fresh[OF fresh, of t] by simp
    have "x \<notin> fst ` set (snd (checkRateLimit_seq cs ?rc1))"
    proof (rule Cons.IH)
      show "distinct (map fst cs)" using Cons.prems(1) by simp
      show "fst ` set cs \<inter> fst ` set ?rc1 = {}" using Cons.prems(1,2) by (auto simp: c)
      show "length ?rc1 \<le> 1000" using False by simp
      show "1000 < length ?rc1 + length cs" using Cons.prems(4) by simp
      show "x \<notin> fst ` set cs" using Cons.prems(5) by simp
    qed
    with step show ?thesis unfolding c checkRateLimit_seq_Cons by simp
  qed
qed

lemma accepted_size: "fst (checkRateLimit i t m) \<Longrightarrow> length (snd (checkRateLimit i t m)) \<le> 1000"
  by (simp add: checkRateLimit_def Let_def split: if_splits)

lemma length_update:
  "length (AList.update k v al) = (if map_of al k = None then Suc (length al) else length al)"
  by (induction al) auto

lemma accepted_cleared_iff:
  assumes "fst (checkRateLimit i t m)"
  shows "snd (checkRateLimit i t m) = []
    \<longleftrightarrow> 1000 < (if map_of m i = None then Suc (length m) else length m)"
  using assms
  by (simp add: checkRateLimit_def Let_def length_update split: if_splits)

lemma thousand_calls_keys:
  "length thousand_calls = 1000"
  "distinct (map fst thousand_calls)"
  "k \<in> fst ` set thousand_calls \<Longrightarrow> hd k = CHR ''a''"
  by (auto simp: thousand_calls_def distinct_map inj_on_def comp_def)

lemma thousand_tracked_keys:
  "length thousand_tracked = 1000"
  "k \<in> fst ` set thousand_tracked \<Longrightarrow> hd k = CHR ''a''"
  by (auto simp: thousand_tracked_def)

section \<open>The rate limiter: denial\<close>

text \<open>
  Claim C10. Whatever the identifier, the clock and the map, a call of \<^verbatim>\<open>checkRateLimit\<close>
  that answers \<^verbatim>\<open>false\<close> returns the map it was given: the filtered list is never stored
  and the map is not cleared on that path.
\<close>

theorem denial_leaves_map_unchanged:
  "\<not> fst (checkRateLimit identifier now rc) \<Longrightarrow> snd (checkRateLimit identifier now rc) = rc"
  by (simp add: checkRateLimit_def Let_def split: if_splits)

text \<open>
  An identifier with one stale entry and 100 recent ones is denied at time 70000, and the
  stale entry is still in the map afterwards.
\<close>

theorem denial_leaves_map_unchanged_witness:
  "\<not> fst (checkRateLimit ''root@admin.example'' 70000
            [(''root@admin.example'', 0 # replicate 100 60000)])
   \<and> snd (checkRateLimit ''root@admin.example'' 70000
            [(''root@admin.example'', 0 # replicate 100 60000)])
       = [(''root@admin.example'', 0 # replicate 100 60000)]"
proof -
  have blocked:
    "\<not> fst (checkRateLimit ''root@admin.example'' 70000
              [(''root@admin.example'', 0 # replicate 100 60000)])"
    by (simp add: checkRateLimit_def MAX_REQUESTS_def RATE_LIMIT_WINDOW_def)
  from blocked denial_leaves_map_unchanged[OF blocked] show ?thesis by simp
qed

section \<open>Suspicious paths\<close>

text \<open>
  Claim C3. If some entry of the deny-list occurs anywhere in the path (with any text before
  and after it), the middleware answers 404 with an empty body and no headers, whatever
  the session lookup would have answered; it makes no call and leaves the map alone. The
  statement does not look at the public prefixes, so the test comes before them.
\<close>

theorem suspicious_path_is_404:
  assumes "d \<in> set SUSPICIOUS_PATHS" and "nextUrl_pathname req = pre @ d @ suf"
  shows "middleware req getSession now rc =
      Inr \<lparr>response = \<lparr>kind = New Null 404, headers = []\<rparr>, requestCounts = rc, calls = []\<rparr>"
proof -
  from assms have "isSuspicious (nextUrl_pathname req)"
    unfolding isSuspicious_iff by blast
  then show ?thesis
    by (simp add: middleware_suspicious NextResponse_new_def)
qed

text \<open>
  The path \<^verbatim>\<open>/_next/static/.env.local\<close> starts with a public prefix and holds \<^verbatim>\<open>/.env\<close> in
  the middle: 404 for an administrator and for a visitor without session.
\<close>

theorem suspicious_path_is_404_witness:
  "''/.env'' \<in> set SUSPICIOUS_PATHS
   \<and> isPublic ''/_next/static/.env.local''
   \<and> middleware (example_request ''/_next/static/.env.local'' ''GET'' [])
        (Returns (Some admin_session)) 0 []
      = Inr \<lparr>response = \<lparr>kind = New Null 404, headers = []\<rparr>, requestCounts = [], calls = []\<rparr>
   \<and> middleware (example_request ''/_next/static/.env.local'' ''GET'' [])
        (Returns None) 0 []
      = Inr \<lparr>response = \<lparr>kind = New Null 404, headers = []\<rparr>, requestCounts = [], calls = []\<rparr>"
proof -
  have mem: "''/.env'' \<in> set SUSPICIOUS_PATHS"
    by (simp add: SUSPICIOUS_PATHS_def)
  have parts: "nextUrl_pathname (example_request ''/_next/static/.env.local'' ''GET'' [])
      = ''/_next/static'' @ ''/.env'' @ ''.local''"
    by (simp add: example_request_def)
  have pub: "isPublic ''/_next/static/.env.local''"
    by (simp add: path_eval)
  from mem pub suspicious_path_is_404[OF mem parts] show ?thesis by simp
qed

section \<open>The public exit\<close>

text \<open>
  Claim C1. A path that starts with \<^verbatim>\<open>/\<close> and holds no entry of the deny-list is public,
  because \<^verbatim>\<open>/\<close> is the first public prefix. The middleware then returns
  \<^verbatim>\<open>NextResponse.next()\<close> with no header set, calls neither the session lookup nor
  \<^verbatim>\<open>checkRateLimit\<close>, and leaves the map alone. The session outcome, the method and the
  content type are arbitrary in the statement: neither the role nor the content type is
  looked at.
\<close>

theorem unsuspicious_path_takes_public_exit:
  assumes "str_startsWith (nextUrl_pathname req) ''/''"
    and "\<not> isSuspicious (nextUrl_pathname req)"
  shows "isPublic (nextUrl_pathname req)
    \<and> middleware req getSession now rc =
        Inr \<lparr>response = \<lparr>kind = Next, headers = []\<rparr>, requestCounts = rc, calls = []\<rparr>"
proof -
  from assms(1) have "isPublic (nextUrl_pathname req)" by (rule isPublic_root)
  with assms(2) show ?thesis
    by (simp add: middleware_public NextResponse_next_def)
qed

text \<open>
  A \<^verbatim>\<open>POST\<close> of \<^verbatim>\<open>text/plain\<close> to \<^verbatim>\<open>/admin/users\<close> without any session goes through
  untouched.
\<close>

theorem unsuspicious_path_takes_public_exit_witness:
  "str_startsWith ''/admin/users'' ''/''
   \<and> \<not> isSuspicious ''/admin/users''
   \<and> isPublic ''/admin/users''
   \<and> middleware (example_request ''/admin/users'' ''POST'' [(''content-type'', ''text/plain'')])
        (Returns None) 0 []
      = Inr \<lparr>response = \<lparr>kind = Next, headers = []\<rparr>, requestCounts = [], calls = []\<rparr>"
proof -
  have slash: "str_startsWith (nextUrl_pathname
      (example_request ''/admin/users'' ''POST'' [(''content-type'', ''text/plain'')])) ''/''"
    by (simp add: example_request_def str_startsWith_def)
  have clean: "\<not> isSuspicious (nextUrl_pathname
      (example_request ''/admin/users'' ''POST'' [(''content-type'', ''text/plain'')]))"
    by (simp add: example_request_def path_eval)
  from slash clean unsuspicious_path_takes_public_exit[OF slash clean, of "Returns None" 0 "[]"]
  show ?thesis by (simp add: example_request_def)
qed

section \<open>Paths under \<^verbatim>\<open>/admin\<close>\<close>

text \<open>
  Claim C4. The specification expects a request for a protected path without a session to
  be redirected to the login page with \<^verbatim>\<open>error=authentication_required\<close>, the path as
  \<^verbatim>\<open>callbackUrl\<close> and \<^verbatim>\<open>X-Redirect-Reason: no-session\<close>. In the code a \<^verbatim>\<open>GET\<close> of
  \<^verbatim>\<open>/admin/users\<close> leaves at the public exit, because the path starts with the public prefix
  \<^verbatim>\<open>/\<close>: whether the session lookup would return \<^verbatim>\<open>null\<close> or a session without a user, the
  response is \<^verbatim>\<open>NextResponse.next()\<close> without any header, and the lookup is never made.
\<close>

theorem admin_path_without_session_is_forwarded:
  "middleware (example_request ''/admin/users'' ''GET'' []) (Returns None) 0 []
     = Inr \<lparr>response = \<lparr>kind = Next, headers = []\<rparr>, requestCounts = [], calls = []\<rparr>
   \<and> middleware (example_request ''/admin/users'' ''GET'' [])
        (Returns (Some \<lparr>session_user = None\<rparr>)) 0 []
     = Inr \<lparr>response = \<lparr>kind = Next, headers = []\<rparr>, requestCounts = [], calls = []\<rparr>"
proof -
  let ?req = "example_request ''/admin/users'' ''GET'' []"
  have "\<not> isSuspicious (nextUrl_pathname ?req)"
    by (simp add: example_request_def path_eval)
  moreover have "isPublic (nextUrl_pathname ?req)"
    by (simp add: example_request_def path_eval)
  ultimately show ?thesis
    by (simp add: middleware_public NextResponse_next_def)
qed

text \<open>
  Claim C8. The specification expects a failing session lookup on a protected path to end
  in the redirect with \<^verbatim>\<open>error=auth_error\<close> and \<^verbatim>\<open>X-Redirect-Reason: auth-error\<close>, and no
  exception to leave the middleware. In the code a \<^verbatim>\<open>GET\<close> of \<^verbatim>\<open>/admin/users\<close> leaves at the
  public exit while the lookup would throw: the response is \<^verbatim>\<open>NextResponse.next()\<close> and the
  lookup is never made. And where the \<^verbatim>\<open>catch\<close> block is reached (a request object whose
  path has no leading slash), a thrown \<^verbatim>\<open>undefined\<close> or \<^verbatim>\<open>null\<close> makes the block's own read
  of \<^verbatim>\<open>error.message\<close> raise a \<^verbatim>\<open>TypeError\<close> that leaves the middleware.
\<close>

theorem failing_session_lookup_is_not_redirected:
  "middleware (example_request ''/admin/users'' ''GET'' [])
      (Throws (ThrownValue (Some ''fetch failed''))) 0 []
     = Inr \<lparr>response = \<lparr>kind = Next, headers = []\<rparr>, requestCounts = [], calls = []\<rparr>
   \<and> middleware (bare_path_request ''GET'' []) (Throws ThrownNullish) 0 [] = Inl TypeError"
proof -
  let ?req = "example_request ''/admin/users'' ''GET'' []"
  have "\<not> isSuspicious (nextUrl_pathname ?req)"
    by (simp add: example_request_def path_eval)
  moreover have "isPublic (nextUrl_pathname ?req)"
    by (simp add: example_request_def path_eval)
  ultimately have "middleware ?req (Throws (ThrownValue (Some ''fetch failed''))) 0 []
     = Inr \<lparr>response = \<lparr>kind = Next, headers = []\<rparr>, requestCounts = [], calls = []\<rparr>"
    by (simp add: middleware_public NextResponse_next_def)
  moreover have "middleware (bare_path_request ''GET'' []) (Throws ThrownNullish) 0 []
     = Inl TypeError"
    by (rule middleware_throws_nullish[OF bare_path_protected])
  ultimately show ?thesis by blast
qed

text \<open>
  Claim C9. The specification expects a request for a protected path by a user whose role
  is not \<^verbatim>\<open>admin\<close> to be redirected to the login page with \<^verbatim>\<open>error=unauthorized\<close>, a message
  and \<^verbatim>\<open>X-Redirect-Reason: not-admin\<close>. In the code a \<^verbatim>\<open>GET\<close> of \<^verbatim>\<open>/admin/users\<close> by a user
  with the role \<^verbatim>\<open>user\<close> leaves at the public exit: the response is \<^verbatim>\<open>NextResponse.next()\<close>
  without any header, and the role is never read.
\<close>

theorem admin_path_with_other_role_is_forwarded:
  "middleware (example_request ''/admin/users'' ''GET'' [])
      (Returns (Some \<lparr>session_user =
         Some \<lparr>user_role = Some ''user'', user_email = Some ''guest@admin.example'',
               user_id = Some ''u2''\<rparr>\<rparr>)) 0 []
     = Inr \<lparr>response = \<lparr>kind = Next, headers = []\<rparr>, requestCounts = [], calls = []\<rparr>"
proof -
  let ?req = "example_request ''/admin/users'' ''GET'' []"
  have "\<not> isSuspicious (nextUrl_pathname ?req)"
    by (simp add: example_request_def path_eval)
  moreover have "isPublic (nextUrl_pathname ?req)"
    by (simp add: example_request_def path_eval)
  ultimately show ?thesis
    by (simp add: middleware_public NextResponse_next_def)
qed

section \<open>API paths\<close>

text \<open>
  Claim C2. The specification expects an administrator's first request to \<^verbatim>\<open>/api/orders\<close> to be
  forwarded with \<^verbatim>\<open>X-Admin-User\<close> and \<^verbatim>\<open>Cache-Control\<close> set. In the code the path starts
  with the public prefix \<^verbatim>\<open>/\<close>, so the request leaves at the public exit: the response is
  \<^verbatim>\<open>NextResponse.next()\<close> without any header, and the session is never looked up.
\<close>

theorem admin_api_orders_gets_no_headers:
  "middleware (example_request ''/api/orders'' ''GET'' []) (Returns (Some admin_session)) 0 []
     = Inr \<lparr>response = \<lparr>kind = Next, headers = []\<rparr>, requestCounts = [], calls = []\<rparr>
   \<and> map_of (headers (response (projr (middleware (example_request ''/api/orders'' ''GET'' [])
        (Returns (Some admin_session)) 0 [])))) ''X-Admin-User'' = None
   \<and> map_of (headers (response (projr (middleware (example_request ''/api/orders'' ''GET'' [])
        (Returns (Some admin_session)) 0 [])))) ''Cache-Control'' = None"
proof -
  have "\<not> isSuspicious (nextUrl_pathname (example_request ''/api/orders'' ''GET'' []))"
    by (simp add: example_request_def path_eval)
  moreover have "isPublic (nextUrl_pathname (example_request ''/api/orders'' ''GET'' []))"
    by (simp add: example_request_def path_eval)
  ultimately show ?thesis
    by (simp add: middleware_public NextResponse_next_def)
qed

text \<open>
  Claim C7. The specification expects 400 for a \<^verbatim>\<open>POST\<close> of \<^verbatim>\<open>text/plain\<close> to an API path outside
  \<^verbatim>\<open>/api/auth/\<close>. In the code such a request to \<^verbatim>\<open>/api/orders\<close> leaves at the public exit
  and is forwarded; the content type is never looked at.
\<close>

theorem text_plain_post_to_api_is_forwarded:
  "middleware (example_request ''/api/orders'' ''POST'' [(''content-type'', ''text/plain'')])
      (Returns (Some admin_session)) 0 []
     = Inr \<lparr>response = \<lparr>kind = Next, headers = []\<rparr>, requestCounts = [], calls = []\<rparr>"
proof -
  let ?req = "example_request ''/api/orders'' ''POST'' [(''content-type'', ''text/plain'')]"
  have "\<not> isSuspicious (nextUrl_pathname ?req)"
    by (simp add: example_request_def path_eval)
  moreover have "isPublic (nextUrl_pathname ?req)"
    by (simp add: example_request_def path_eval)
  ultimately show ?thesis
    by (simp add: middleware_public NextResponse_next_def)
qed

section \<open>The rate limiter: the window and the clearing of the map\<close>

text \<open>
  Claim C5. Start from a map that does not track the identifier yet and tracks fewer than
  1000 others (the empty map, for one). Of 101 calls by the identifier whose clock values
  all lie in one window of 60000 milliseconds, the first 100 are accepted and the last is
  denied. A further call 61000 milliseconds after the clock value of the first call is
  accepted: the entries that are 60000 milliseconds old or more are filtered out before
  counting, the first one among them, and what is stored for the identifier afterwards is
  the filtered list with the new clock value at its end.
\<close>

theorem hundred_calls_per_window:
  assumes len: "length ts = 101"
    and win: "\<forall>t\<in>set ts. w \<le> t \<and> t < w + 60000"
    and fresh: "map_of rc i = None"
    and room: "length rc < 1000"
  shows "fst (checkRateLimit_seq (map (Pair i) ts) rc) = replicate 100 True @ [False]
    \<and> fst (checkRateLimit i (hd ts + 61000) (snd (checkRateLimit_seq (map (Pair i) ts) rc)))
    \<and> map_of (snd (checkRateLimit i (hd ts + 61000)
          (snd (checkRateLimit_seq (map (Pair i) ts) rc)))) i
        = Some (filter (\<lambda>time. hd ts + 61000 - time < 60000) (take 100 ts) @ [hd ts + 61000])"
proof -
  from len obtain t1 rest where ts: "ts = t1 # rest" and rest: "length rest = 100"
    by (cases ts) auto
  define mid where "mid = butlast rest"
  define t101 where "t101 = last rest"
  from rest have split: "rest = mid @ [t101]" and mid: "length mid = 99"
    unfolding mid_def t101_def by (auto simp: length_0_conv[symmetric] simp del: length_0_conv)
  define rc1 where "rc1 = rc @ [(i, [t1])]"
  define rc100 where "rc100 = AList.update i ([t1] @ mid) rc1"
  have call1: "checkRateLimit i t1 rc = (True, rc1)"
    using checkRateLimit_fresh[OF fresh, of t1] room by (simp add: rc1_def)
  have look1: "map_of rc1 i = Some [t1]"
    using fresh by (simp add: rc1_def map_add_def)
  have len1: "length rc1 \<le> 1000"
    using room by (simp add: rc1_def)
  have calls2: "checkRateLimit_seq (map (Pair i) mid) rc1 = (replicate (length mid) True, rc100)"
    unfolding rc100_def
    using win mid by (intro seq_within_window[OF look1, where w = w] len1) (auto simp: ts split)
  have look100: "map_of rc100 i = Some (t1 # mid)"
    by (simp add: rc100_def update_conv')
  have "i \<in> fst ` set rc1" using look1 by (rule map_of_present)
  then have len100: "length rc100 \<le> 1000"
    using len1 by (simp add: rc100_def length_update_present)
  have "filter (\<lambda>time. t101 - time < 60000) (t1 # mid) = t1 # mid"
    using win by (intro filter_in_window[where w = w]) (auto simp: ts split)
  then have call101: "checkRateLimit i t101 rc100 = (False, rc100)"
    using checkRateLimit_deny[OF look100, of t101] mid by simp
  have rep: "True # replicate 99 True = replicate 100 True"
    using replicate_Suc[of 99 True] by simp
  have run: "checkRateLimit_seq (map (Pair i) ts) rc = (replicate 100 True @ [False], rc100)"
    using call1 calls2 call101 mid
    by (simp add: ts split checkRateLimit_seq_append case_prod_beta rep)
  have drop1: "filter (\<lambda>time. t1 + 61000 - time < 60000) (t1 # mid)
      = filter (\<lambda>time. t1 + 61000 - time < 60000) mid"
    by simp
  have "length (filter (\<lambda>time. t1 + 61000 - time < 60000) mid) \<le> length mid"
    by (rule length_filter_le)
  then have few: "length (filter (\<lambda>time. t1 + 61000 - time < 60000) (t1 # mid)) < 100"
    using mid by (simp only: drop1)
  have later: "checkRateLimit i (t1 + 61000) rc100 =
      (True, AList.update i
        (filter (\<lambda>time. t1 + 61000 - time < 60000) (t1 # mid) @ [t1 + 61000]) rc100)"
    by (rule checkRateLimit_accept[OF look100 few len100])
  have tk: "take 100 ts = t1 # mid"
    using mid by (simp add: ts split)
  have first: "hd ts = t1"
    by (simp add: ts)
  have accepted: "fst (checkRateLimit i (t1 + 61000) rc100)"
    unfolding later by simp
  have stored: "map_of (snd (checkRateLimit i (t1 + 61000) rc100)) i
      = Some (filter (\<lambda>time. t1 + 61000 - time < 60000) (t1 # mid) @ [t1 + 61000])"
    unfolding later snd_conv by (simp only: update_conv' fun_upd_same)
  from accepted stored show ?thesis
    unfolding run fst_conv snd_conv first tk by blast
qed

text \<open>The calls at the milliseconds 0, 1, ..., 100 on the empty map, then one at 61000.\<close>

theorem hundred_calls_per_window_witness:
  "length (map int [0..<101]) = 101
   \<and> map_of ([] :: rate_map) ''root@admin.example'' = None
   \<and> fst (checkRateLimit_seq (map (Pair ''root@admin.example'') (map int [0..<101])) [])
       = replicate 100 True @ [False]
   \<and> fst (checkRateLimit ''root@admin.example'' 61000
        (snd (checkRateLimit_seq (map (Pair ''root@admin.example'') (map int [0..<101])) [])))"
proof -
  have len: "length (map int [0..<101]) = 101" by simp
  have win: "\<forall>t\<in>set (map int [0..<101]). 0 \<le> t \<and> t < 0 + 60000" by auto
  have fresh: "map_of ([] :: rate_map) ''root@admin.example'' = None" by simp
  have room: "length ([] :: rate_map) < 1000" by simp
  have h: "hd (map int [0..<101]) = 0" by (simp add: hd_map)
  from len fresh hundred_calls_per_window[OF len win fresh room] show ?thesis
    unfolding h by simp
qed

text \<open>
  Claim C6. An accepted call leaves the map empty exactly when the number of identifiers,
  counted after the call has been recorded, exceeds 1000, and it never leaves more than
  1000 identifiers in the map; a call by an identifier that is not tracked, on a map that
  tracks 1000 identifiers or more, is accepted and leaves the map empty. Hence, on a map with at most 1000 identifiers in
  which \<open>x\<close> is denied at the time \<open>now\<close>, after calls by distinct identifiers that were
  not tracked and that bring the number of identifiers seen above 1000, \<open>x\<close> is accepted
  at the same time \<open>now\<close>.
\<close>

theorem map_cleared_above_1000_identifiers:
  "(fst (checkRateLimit i t m) \<longrightarrow>
      (snd (checkRateLimit i t m) = [])
        = (1000 < (if map_of m i = None then Suc (length m) else length m))
      \<and> length (snd (checkRateLimit i t m)) \<le> 1000)
   \<and> (1000 \<le> length m \<and> map_of m i = None \<longrightarrow> checkRateLimit i t m = (True, []))
   \<and> (length rc \<le> 1000
        \<and> \<not> fst (checkRateLimit x now rc)
        \<and> distinct (map fst cs)
        \<and> fst ` set cs \<inter> fst ` set rc = {}
        \<and> 1000 < length rc + length cs
      \<longrightarrow> fst (checkRateLimit x now (snd (checkRateLimit_seq cs rc))))"
proof (intro conjI impI)
  assume "fst (checkRateLimit i t m)"
  then show "(snd (checkRateLimit i t m) = [])
        = (1000 < (if map_of m i = None then Suc (length m) else length m))"
    by (rule accepted_cleared_iff)
next
  assume "fst (checkRateLimit i t m)"
  then show "length (snd (checkRateLimit i t m)) \<le> 1000"
    by (rule accepted_size)
next
  assume "1000 \<le> length m \<and> map_of m i = None"
  then show "checkRateLimit i t m = (True, [])"
    using checkRateLimit_fresh[of m i t] by simp
next
  assume a: "length rc \<le> 1000
        \<and> \<not> fst (checkRateLimit x now rc)
        \<and> distinct (map fst cs)
        \<and> fst ` set cs \<inter> fst ` set rc = {}
        \<and> 1000 < length rc + length cs"
  have "map_of rc x \<noteq> None"
  proof
    assume "map_of rc x = None"
    then have "fst (checkRateLimit x now rc)"
      by (simp add: checkRateLimit_fresh)
    with a show False by simp
  qed
  then have "x \<in> fst ` set rc"
    by (simp add: map_of_eq_None_iff)
  with a have "x \<notin> fst ` set cs" by blast
  with a have "x \<notin> fst ` set (snd (checkRateLimit_seq cs rc))"
    by (intro new_identifiers_clear) simp_all
  then have "map_of (snd (checkRateLimit_seq cs rc)) x = None"
    by (simp add: map_of_eq_None_iff)
  then show "fst (checkRateLimit x now (snd (checkRateLimit_seq cs rc)))"
    by (simp add: checkRateLimit_fresh)
qed

text \<open>
  The 1001st identifier on a map of a thousand; and the administrator, denied at first,
  accepted after a thousand calls by other identifiers.
\<close>

theorem map_cleared_above_1000_identifiers_witness:
  "fst (checkRateLimit ''guest@admin.example'' 0 thousand_tracked)
   \<and> snd (checkRateLimit ''guest@admin.example'' 0 thousand_tracked) = []
   \<and> length (snd (checkRateLimit ''guest@admin.example'' 0 thousand_tracked)) \<le> 1000
   \<and> 1000 \<le> length thousand_tracked
   \<and> map_of thousand_tracked ''guest@admin.example'' = None
   \<and> checkRateLimit ''guest@admin.example'' 0 thousand_tracked = (True, [])
   \<and> length blocked_admin \<le> 1000
   \<and> \<not> fst (checkRateLimit ''root@admin.example'' 0 blocked_admin)
   \<and> distinct (map fst thousand_calls)
   \<and> fst ` set thousand_calls \<inter> fst ` set blocked_admin = {}
   \<and> 1000 < length blocked_admin + length thousand_calls
   \<and> fst (checkRateLimit ''root@admin.example'' 0
        (snd (checkRateLimit_seq thousand_calls blocked_admin)))"
proof -
  have full: "1000 \<le> length thousand_tracked"
    by (simp add: thousand_tracked_keys)
  have new: "map_of thousand_tracked ''guest@admin.example'' = None"
    using thousand_tracked_keys(2)[of "''guest@admin.example''"]
    by (auto simp: map_of_eq_None_iff)
  have small: "length blocked_admin \<le> 1000"
    by (simp add: blocked_admin_def)
  have blocked: "\<not> fst (checkRateLimit ''root@admin.example'' 0 blocked_admin)"
    by (simp add: blocked_admin_def checkRateLimit_def MAX_REQUESTS_def RATE_LIMIT_WINDOW_def)
  have dist: "distinct (map fst thousand_calls)"
    by (rule thousand_calls_keys)
  have disj: "fst ` set thousand_calls \<inter> fst ` set blocked_admin = {}"
    using thousand_calls_keys(3)[of "''root@admin.example''"]
    by (auto simp: blocked_admin_def)
  have many: "1000 < length blocked_admin + length thousand_calls"
    by (simp add: blocked_admin_def thousand_calls_keys)
  note inst = map_cleared_above_1000_identifiers[of "''guest@admin.example''" 0 thousand_tracked
      blocked_admin "''root@admin.example''" 0 thousand_calls]
  have acc: "checkRateLimit ''guest@admin.example'' 0 thousand_tracked = (True, [])"
    using inst full new by blast
  from inst acc full new small blocked dist disj many show ?thesis
    by simp
qed

end
